theory Spec2Isabelle
  imports Main
begin

section \<open>The search orchestrator: src/memex/search/core.py\<close>

subsection \<open>Data\<close>

text \<open>
  Annotation identifiers are strings. A relevance score is only ever copied from the
  backend's response into the score dictionary, so its type is left open (\<open>'sc\<close>), and
  so are the type of a raw aggregation payload (\<open>'raw\<close>), of a parsed aggregation
  (\<open>'val\<close>) and of the request object (\<open>'rq\<close>).
\<close>

type_synonym annotation_id = string

type_synonym addr = nat

datatype pval = PInt int | PStr string

type_synonym params = "(string \<times> pval) list"

text \<open>
  Modelled from the spec: the module \<open>memex.search.query\<close> (the filter and matcher
  classes and \<open>Builder\<close>) is not among the sources. The filter and matcher classes that
  core.py instantiates are the constructors below; \<open>OtherFilter\<close> and \<open>OtherMatcher\<close>
  stand for components of any other class. A \<open>Builder\<close> accumulates an ordered list of
  filters, of matchers and of aggregations; an aggregation component has a \<open>key\<close> and a
  \<open>parse_result\<close> method.
\<close>

datatype 'rq filter =
    AuthFilter 'rq
  | UriFilter 'rq
  | GroupFilter
  | UserFilter
  | TopLevelAnnotationsFilter
  | OtherFilter string

datatype matcher =
    AnyMatcher
  | TagsMatcher
  | RepliesMatcher "annotation_id list"
  | OtherMatcher string

record ('raw, 'val) aggregation =
  key :: string
  parse_result :: "'raw \<Rightarrow> 'val"

record ('rq, 'raw, 'val) builder =
  filters :: "'rq filter list"
  matchers :: "matcher list"
  aggregations :: "('raw, 'val) aggregation list"

definition Builder :: "('rq, 'raw, 'val) builder" where
  "Builder = \<lparr>filters = [], matchers = [], aggregations = []\<rparr>"

definition builder_append_filter ::
  "'rq filter \<Rightarrow> ('rq, 'raw, 'val) builder \<Rightarrow> ('rq, 'raw, 'val) builder" where
  "builder_append_filter f b = b\<lparr>filters := filters b @ [f]\<rparr>"

definition builder_append_matcher ::
  "matcher \<Rightarrow> ('rq, 'raw, 'val) builder \<Rightarrow> ('rq, 'raw, 'val) builder" where
  "builder_append_matcher m b = b\<lparr>matchers := matchers b @ [m]\<rparr>"

definition builder_append_aggregation ::
  "('raw, 'val) aggregation \<Rightarrow> ('rq, 'raw, 'val) builder \<Rightarrow> ('rq, 'raw, 'val) builder" where
  "builder_append_aggregation a b = b\<lparr>aggregations := aggregations b @ [a]\<rparr>"

text \<open>
  Modelled from the spec: \<open>Builder.build(params)\<close> is not among the sources. The
  request body it produces is represented by what it is built from: the builder's
  components at the time of the call, and the params.
\<close>

record ('rq, 'raw, 'val) body =
  built_from :: "('rq, 'raw, 'val) builder"
  built_params :: params

definition build ::
  "('rq, 'raw, 'val) builder \<Rightarrow> params \<Rightarrow> ('rq, 'raw, 'val) body" where
  "build b ps = \<lparr>built_from = b, built_params = ps\<rparr>"

text \<open>
  The backend's response: \<open>response['hits']['total']\<close>, \<open>response['hits']['hits']\<close>
  with \<open>_id\<close> and \<open>_score\<close> of each hit, and the optional \<open>response['aggregations']\<close>,
  a dictionary from aggregation name to raw payload (listed in iteration order).
\<close>

record 'sc hit =
  hit_id :: annotation_id
  hit_score :: 'sc

record ('sc, 'raw) response =
  hits_total :: int
  hits_hits :: "'sc hit list"
  response_aggregations :: "(string \<times> 'raw) list option"

text \<open>
  \<open>SearchResult\<close> is a namedtuple. Its field \<open>annotation_ids_map\<close> holds a reference to
  a dictionary object, not a copy of one: the field is an address into the store of
  dictionaries of the process.
\<close>

record 'val SearchResult =
  total :: int
  annotation_ids :: "annotation_id list"
  annotation_ids_map :: addr
  reply_ids :: "annotation_id list"
  result_aggregations :: "string \<rightharpoonup> 'val"

datatype ('sc, 'raw) printed = PrintParams params | PrintResponse "('sc, 'raw) response"

text \<open>
  The state of the process that the module reads and writes: the score dictionaries by
  address, the calls made to the search backend so far, the warnings logged through
  \<open>log.warn\<close>, and what the two \<open>print\<close> statements have written.
\<close>

record ('rq, 'sc, 'raw, 'val) world =
  score_dicts :: "addr \<Rightarrow> (annotation_id \<rightharpoonup> 'sc)"
  es_calls :: "('rq, 'raw, 'val) body list"
  log_warnings :: "string list"
  stdout :: "('sc, 'raw) printed list"

text \<open>
  The module-level name \<open>annotation_ids_map\<close> is bound once, when the module is
  imported, to an empty dictionary, and is never rebound: it is one address.
\<close>

definition module_annotation_ids_map :: addr where
  "module_annotation_ids_map = 0"

definition module_import :: "('rq, 'sc, 'raw, 'val) world" where
  "module_import =
     \<lparr>score_dicts = (\<lambda>a. Map.empty), es_calls = [], log_warnings = [], stdout = []\<rparr>"

text \<open>
  The backend (\<open>self.es.conn.search\<close>) is outside the program. Its answer to a request
  body may depend on everything it was asked before, so it is a function of the calls
  made so far and of the body.
\<close>

type_synonym ('rq, 'sc, 'raw, 'val) backend =
  "('rq, 'raw, 'val) body list \<Rightarrow> ('rq, 'raw, 'val) body \<Rightarrow> ('sc, 'raw) response"

record ('rq, 'sc, 'raw, 'val) request =
  request_id :: 'rq
  request_es :: "('rq, 'sc, 'raw, 'val) backend"
  registry_filters :: "('rq \<Rightarrow> 'rq filter) list option"
  registry_matchers :: "('rq \<Rightarrow> matcher) list option"

record ('rq, 'sc, 'raw, 'val) search =
  request :: "('rq, 'sc, 'raw, 'val) request"
  es :: "('rq, 'sc, 'raw, 'val) backend"
  separate_replies :: bool
  builder :: "('rq, 'raw, 'val) builder"
  reply_builder :: "('rq, 'raw, 'val) builder"

subsection \<open>Operations\<close>

fun append_filters ::
  "'rq filter list \<Rightarrow> ('rq, 'raw, 'val) builder \<Rightarrow> ('rq, 'raw, 'val) builder" where
  "append_filters [] b = b"
| "append_filters (f # fs) b = append_filters fs (builder_append_filter f b)"

fun append_matchers ::
  "matcher list \<Rightarrow> ('rq, 'raw, 'val) builder \<Rightarrow> ('rq, 'raw, 'val) builder" where
  "append_matchers [] b = b"
| "append_matchers (m # ms) b = append_matchers ms (builder_append_matcher m b)"

definition registry_get :: "'a list option \<Rightarrow> 'a list" where
  "registry_get entry = (case entry of None \<Rightarrow> [] | Some fs \<Rightarrow> fs)"

definition default_querybuilder ::
  "('rq, 'sc, 'raw, 'val) request \<Rightarrow> ('rq, 'raw, 'val) builder" where
  "default_querybuilder rq =
     (let b = Builder;
          b = builder_append_filter (AuthFilter (request_id rq)) b;
          b = builder_append_filter (UriFilter (request_id rq)) b;
          b = builder_append_filter GroupFilter b;
          b = builder_append_filter UserFilter b;
          b = builder_append_matcher AnyMatcher b;
          b = builder_append_matcher TagsMatcher b;
          b = append_filters
                (map (\<lambda>factory. factory (request_id rq)) (registry_get (registry_filters rq))) b;
          b = append_matchers
                (map (\<lambda>factory. factory (request_id rq)) (registry_get (registry_matchers rq))) b
      in b)"

definition Search ::
  "('rq, 'sc, 'raw, 'val) request \<Rightarrow> bool \<Rightarrow> ('rq, 'sc, 'raw, 'val) search" where
  "Search rq sep =
     \<lparr>request = rq, es = request_es rq, separate_replies = sep,
      builder = default_querybuilder rq, reply_builder = default_querybuilder rq\<rparr>"

definition append_filter ::
  "'rq filter \<Rightarrow> ('rq, 'sc, 'raw, 'val) search \<Rightarrow> ('rq, 'sc, 'raw, 'val) search" where
  "append_filter f s =
     s\<lparr>builder := builder_append_filter f (builder s),
       reply_builder := builder_append_filter f (reply_builder s)\<rparr>"

definition append_matcher ::
  "matcher \<Rightarrow> ('rq, 'sc, 'raw, 'val) search \<Rightarrow> ('rq, 'sc, 'raw, 'val) search" where
  "append_matcher m s =
     s\<lparr>builder := builder_append_matcher m (builder s),
       reply_builder := builder_append_matcher m (reply_builder s)\<rparr>"

definition append_aggregation ::
  "('raw, 'val) aggregation \<Rightarrow> ('rq, 'sc, 'raw, 'val) search \<Rightarrow> ('rq, 'sc, 'raw, 'val) search" where
  "append_aggregation a s = s\<lparr>builder := builder_append_aggregation a (builder s)\<rparr>"

text \<open>One call of \<open>self.es.conn.search\<close>: the backend answers, and the call is on record.\<close>

definition conn_search ::
  "('rq, 'sc, 'raw, 'val) search \<Rightarrow> ('rq, 'raw, 'val) body \<Rightarrow> ('rq, 'sc, 'raw, 'val) world
     \<Rightarrow> ('sc, 'raw) response \<times> ('rq, 'sc, 'raw, 'val) world" where
  "conn_search s b w = (es s (es_calls w) b, w\<lparr>es_calls := es_calls w @ [b]\<rparr>)"

text \<open>
  The inner loop of \<open>_parse_aggregation_results\<close>: the first aggregation component
  whose key is the bucket's name parses the bucket, and the loop breaks.
\<close>

fun parse_bucket ::
  "string \<Rightarrow> 'raw \<Rightarrow> ('raw, 'val) aggregation list \<Rightarrow> (string \<rightharpoonup> 'val) \<Rightarrow> (string \<rightharpoonup> 'val)" where
  "parse_bucket k result [] results = results"
| "parse_bucket k result (agg # aggs) results =
     (if k \<noteq> key agg then parse_bucket k result aggs results
      else results(k \<mapsto> parse_result agg result))"

text \<open>The outer loop, over the items of the response's aggregations.\<close>

fun parse_buckets ::
  "(string \<times> 'raw) list \<Rightarrow> ('raw, 'val) aggregation list \<Rightarrow> (string \<rightharpoonup> 'val) \<Rightarrow> (string \<rightharpoonup> 'val)" where
  "parse_buckets [] aggs results = results"
| "parse_buckets ((k, result) # items) aggs results =
     parse_buckets items aggs (parse_bucket k result aggs results)"

text \<open>\<open>not aggregations\<close> holds of \<open>None\<close> and of the empty dictionary.\<close>

definition parse_aggregation_results ::
  "('rq, 'sc, 'raw, 'val) search \<Rightarrow> (string \<times> 'raw) list option \<Rightarrow> (string \<rightharpoonup> 'val)" where
  "parse_aggregation_results s aggs =
     (case aggs of
        None \<Rightarrow> Map.empty
      | Some [] \<Rightarrow> Map.empty
      | Some items \<Rightarrow> parse_buckets items (aggregations (builder s)) Map.empty)"

text \<open>The loop \<open>annotation_ids_map[itemvar['_id']] = itemvar['_score']\<close> on the dictionary at an address.\<close>

fun record_scores ::
  "addr \<Rightarrow> 'sc hit list \<Rightarrow> (addr \<Rightarrow> (annotation_id \<rightharpoonup> 'sc)) \<Rightarrow> (addr \<Rightarrow> (annotation_id \<rightharpoonup> 'sc))" where
  "record_scores a [] ds = ds"
| "record_scores a (itemvar # hits) ds =
     record_scores a hits (ds(a := (ds a)(hit_id itemvar \<mapsto> hit_score itemvar)))"

definition search_annotations ::
  "params \<Rightarrow> ('rq, 'sc, 'raw, 'val) search \<Rightarrow> ('rq, 'sc, 'raw, 'val) world
     \<Rightarrow> (int \<times> annotation_id list \<times> addr \<times> (string \<rightharpoonup> 'val))
         \<times> ('rq, 'sc, 'raw, 'val) search \<times> ('rq, 'sc, 'raw, 'val) world" where
  "search_annotations ps s w =
     (let s1 = (if separate_replies s
                then s\<lparr>builder := builder_append_filter TopLevelAnnotationsFilter (builder s)\<rparr>
                else s);
          w1 = w\<lparr>stdout := stdout w @ [PrintParams ps]\<rparr>;
          (response, w2) = conn_search s1 (build (builder s1) ps) w1;
          w3 = w2\<lparr>stdout := stdout w2 @ [PrintResponse response]\<rparr>;
          total = hits_total response;
          annotation_ids = map hit_id (hits_hits response);
          w4 = w3\<lparr>score_dicts :=
                    record_scores module_annotation_ids_map (hits_hits response) (score_dicts w3)\<rparr>;
          aggregations = parse_aggregation_results s1 (response_aggregations response)
      in ((total, annotation_ids, module_annotation_ids_map, aggregations), s1, w4))"

definition reply_overflow_warning :: string where
  "reply_overflow_warning =
     ''The number of reply annotations exceeded the page size '' @
     ''of the Elasticsearch query. We currently don't handle '' @
     ''this, our search API doesn't support pagination of the '' @
     ''reply set.''"

definition search_replies ::
  "annotation_id list \<Rightarrow> ('rq, 'sc, 'raw, 'val) search \<Rightarrow> ('rq, 'sc, 'raw, 'val) world
     \<Rightarrow> annotation_id list \<times> ('rq, 'sc, 'raw, 'val) search \<times> ('rq, 'sc, 'raw, 'val) world" where
  "search_replies ids s w =
     (if \<not> separate_replies s then ([], s, w)
      else
        (let s1 = s\<lparr>reply_builder := builder_append_matcher (RepliesMatcher ids) (reply_builder s)\<rparr>;
             (response, w1) = conn_search s1 (build (reply_builder s1) [(''limit'', PInt 200)]) w;
             w2 = (if int (length (hits_hits response)) < hits_total response
                   then w1\<lparr>log_warnings := log_warnings w1 @ [reply_overflow_warning]\<rparr>
                   else w1)
         in (map hit_id (hits_hits response), s1, w2)))"

definition run ::
  "params \<Rightarrow> ('rq, 'sc, 'raw, 'val) search \<Rightarrow> ('rq, 'sc, 'raw, 'val) world
     \<Rightarrow> 'val SearchResult \<times> ('rq, 'sc, 'raw, 'val) search \<times> ('rq, 'sc, 'raw, 'val) world" where
  "run ps s w =
     (let ((total, annotation_ids, annotation_ids_map, aggregations), s1, w1) =
            search_annotations ps s w;
          (reply_ids, s2, w2) = search_replies annotation_ids s1 w1
      in (\<lparr>total = total, annotation_ids = annotation_ids,
           annotation_ids_map = annotation_ids_map, reply_ids = reply_ids,
           result_aggregations = aggregations\<rparr>, s2, w2))"

text \<open>
  A caller that calls \<open>run\<close> once for every params of a list, on the same \<open>Search\<close>
  object, and collects the results.
\<close>

fun run_seq ::
  "params list \<Rightarrow> ('rq, 'sc, 'raw, 'val) search \<Rightarrow> ('rq, 'sc, 'raw, 'val) world
     \<Rightarrow> 'val SearchResult list \<times> ('rq, 'sc, 'raw, 'val) search \<times> ('rq, 'sc, 'raw, 'val) world" where
  "run_seq [] s w = ([], s, w)"
| "run_seq (ps # pss) s w =
     (let (res, s1, w1) = run ps s w;
          (rs, s2, w2) = run_seq pss s1 w1
      in (res # rs, s2, w2))"

section \<open>The user service: src/h/accounts/services.py\<close>

text \<open>
  What \<open>UserService\<close> uses of the SQLAlchemy session: the rows that a query for a userid
  finds at the moment (the writes made through the session in the open transaction
  included), the rows as they are without the uncommitted writes of the session, to which
  a rollback returns, the queries issued so far, and the listeners registered for the
  events \<open>after_commit\<close> and \<open>after_rollback\<close>. The only listener that the class
  registers is its \<open>flush_cache\<close>. A user is a value of an open type \<open>'u\<close>.
\<close>

type_synonym userid = string

datatype db_error = MultipleResultsFound

datatype listener = Flush_cache

record 'u session =
  rows :: "userid \<Rightarrow> 'u list"
  committed_rows :: "userid \<Rightarrow> 'u list"
  queries :: "userid list"
  after_commit :: "listener list"
  after_rollback :: "listener list"

record 'u user_service =
  session :: "'u session"
  cache :: "userid \<rightharpoonup> 'u option"

text \<open>
  \<open>Query.one_or_none()\<close>: the only row, \<open>None\<close> when there is no row, and
  \<open>MultipleResultsFound\<close> raised when there are several.
\<close>

definition one_or_none :: "'u list \<Rightarrow> db_error + 'u option" where
  "one_or_none found =
     (case found of [] \<Rightarrow> Inr None | [u] \<Rightarrow> Inr (Some u) | _ \<Rightarrow> Inl MultipleResultsFound)"

text \<open>
  \<open>__init__\<close>: the cache starts empty, and \<open>flush_cache\<close> is registered for both events.
\<close>

definition UserService :: "'u session \<Rightarrow> 'u user_service" where
  "UserService sess =
     \<lparr>session = sess\<lparr>after_commit := after_commit sess @ [Flush_cache],
                       after_rollback := after_rollback sess @ [Flush_cache]\<rparr>,
      cache = Map.empty\<rparr>"

definition flush_cache :: "'u user_service \<Rightarrow> 'u user_service" where
  "flush_cache svc = svc\<lparr>cache := Map.empty\<rparr>"

text \<open>
  \<open>fetch\<close>: the store is queried only when the userid is not a key of the cache, and the
  result of the query, \<open>None\<close> included, is cached. When the query raises, nothing is
  cached.
\<close>

definition fetch :: "userid \<Rightarrow> 'u user_service \<Rightarrow> (db_error + 'u option) \<times> 'u user_service" where
  "fetch userid svc =
     (case cache svc userid of
        None \<Rightarrow>
          (let svc1 = svc\<lparr>session := (session svc)\<lparr>queries := queries (session svc) @ [userid]\<rparr>\<rparr>
           in case one_or_none (rows (session svc) userid) of
                Inl e \<Rightarrow> (Inl e, svc1)
              | Inr user \<Rightarrow> (Inr user, svc1\<lparr>cache := (cache svc1)(userid \<mapsto> user)\<rparr>))
      | Some user \<Rightarrow> (Inr user, svc))"

text \<open>
  The listeners registered for an event run after it.
\<close>

fun run_listeners :: "listener list \<Rightarrow> 'u user_service \<Rightarrow> 'u user_service" where
  "run_listeners [] svc = svc"
| "run_listeners (Flush_cache # ls) svc = run_listeners ls (flush_cache svc)"

text \<open>
  \<open>session.commit()\<close> makes the writes of the open transaction permanent: a later
  rollback returns to the rows as they are now. Then the \<open>after_commit\<close> listeners run.
\<close>

definition commit :: "'u user_service \<Rightarrow> 'u user_service" where
  "commit svc =
     run_listeners (after_commit (session svc))
       (svc\<lparr>session := (session svc)\<lparr>committed_rows := rows (session svc)\<rparr>\<rparr>)"

text \<open>
  \<open>session.rollback()\<close> undoes the uncommitted writes made through the session: a query
  finds the rows without them again. Then the \<open>after_rollback\<close> listeners run.
\<close>

definition rollback :: "'u user_service \<Rightarrow> 'u user_service" where
  "rollback svc =
     run_listeners (after_rollback (session svc))
       (svc\<lparr>session := (session svc)\<lparr>rows := committed_rows (session svc)\<rparr>\<rparr>)"

text \<open>
  What happens to the session and the service between two calls: a \<open>fetch\<close> (whose result
  the caller takes, or whose exception it handles); a write through the session, not yet
  committed, that changes the rows a query for a userid finds; a write that another
  transaction has committed and that the session sees, which no rollback of the session
  undoes; a commit; a rollback.
\<close>

datatype 'u session_op =
    Fetch userid
  | Write userid "'u list"
  | Concurrent_write userid "'u list"
  | Commit
  | Rollback

fun step :: "'u session_op \<Rightarrow> 'u user_service \<Rightarrow> 'u user_service" where
  "step (Fetch userid) svc = snd (fetch userid svc)"
| "step (Write userid found) svc =
     svc\<lparr>session := (session svc)\<lparr>rows := (rows (session svc))(userid := found)\<rparr>\<rparr>"
| "step (Concurrent_write userid found) svc =
     svc\<lparr>session := (session svc)
           \<lparr>rows := (rows (session svc))(userid := found),
            committed_rows := (committed_rows (session svc))(userid := found)\<rparr>\<rparr>"
| "step Commit svc = commit svc"
| "step Rollback svc = rollback svc"

fun steps :: "'u session_op list \<Rightarrow> 'u user_service \<Rightarrow> 'u user_service" where
  "steps [] svc = svc"
| "steps (op # ops) svc = steps ops (step op svc)"

fun is_boundary :: "'u session_op \<Rightarrow> bool" where
  "is_boundary Commit = True"
| "is_boundary Rollback = True"
| "is_boundary _ = False"

section \<open>The document store: memex/models/document.py\<close>

text \<open>
  Modelled from the spec: the module \<open>memex.models.document\<close> (\<open>Document\<close>,
  \<open>DocumentURI\<close>, \<open>DocumentMeta\<close>, \<open>find_by_uris\<close>, \<open>find_or_create_by_uris\<close>,
  \<open>create_or_update_document_uri\<close>, \<open>create_or_update_document_meta\<close> and
  \<open>merge_documents\<close>) is not among the sources; only its tests are
  (tests/memex/models/document_test.py). Every definition of this section follows
  sections 3, 4.1, 6 and 7 of the spec. A \<open>Document\<close> is an entry of a table of documents,
  and a \<open>DocumentURI\<close> or \<open>DocumentMeta\<close> row names the document that owns it by its
  identifier (the arena of section 9 of the spec).
\<close>

type_synonym timestamp = int

type_synonym document_id = nat

datatype store_error = IntegrityError | RetryableError | IndexError

record document =
  doc_id :: document_id
  web_uri :: "string option"
  title :: "string option"
  doc_created :: timestamp
  doc_updated :: timestamp

record document_uri =
  uri_claimant :: string
  uri_uri :: string
  uri_type :: string
  uri_content_type :: string
  uri_document :: document_id
  uri_created :: timestamp
  uri_updated :: timestamp

record document_meta =
  meta_claimant :: string
  meta_type :: string
  meta_value :: "string list"
  meta_document :: document_id
  meta_created :: timestamp
  meta_updated :: timestamp

text \<open>
  Modelled from the spec: the storage session (section 6), which is not among the sources.
  It holds the three tables, the identifier of the next new document, the warnings logged,
  and the number of flushes attempted so far. Whether a flush meets a uniqueness or
  integrity violation depends on the other writers, outside the program: \<open>conflicts st n\<close>
  says that flush number \<open>n\<close> of the session raises the storage layer's integrity error.
\<close>

record store =
  documents :: "document list"
  document_uris :: "document_uri list"
  document_metas :: "document_meta list"
  next_document_id :: document_id
  store_warnings :: "string list"
  flushes :: nat
  conflicts :: "nat \<Rightarrow> bool"

definition flush :: "store \<Rightarrow> (store_error + unit) \<times> store" where
  "flush st =
     (if conflicts st (flushes st) then Inl IntegrityError else Inr (),
      st\<lparr>flushes := Suc (flushes st)\<rparr>)"

text \<open>
  Modelled from the spec: the translation of the storage layer's conflict into the
  retryable error kind (sections 6 and 7), done where a write path flushes. The flush is
  attempted once.
\<close>

definition flush_or_retryable :: "store \<Rightarrow> (store_error + unit) \<times> store" where
  "flush_or_retryable st =
     (case flush st of
        (Inl IntegrityError, st') \<Rightarrow> (Inl RetryableError, st')
      | (Inl e, st') \<Rightarrow> (Inl e, st')
      | (Inr u, st') \<Rightarrow> (Inr u, st'))"

text \<open>
  Modelled from the spec: \<open>find_by_uris(uri_candidates)\<close>, the documents that own a
  \<open>DocumentURI\<close> whose \<open>uri\<close> is among the candidates (exact string match).
\<close>

definition find_by_uris :: "string list \<Rightarrow> store \<Rightarrow> document_id list" where
  "find_by_uris uri_candidates st =
     map doc_id
       (filter (\<lambda>d. list_ex (\<lambda>u. uri_document u = doc_id d \<and> uri_uri u \<in> set uri_candidates)
                       (document_uris st))
          (documents st))"

text \<open>
  Modelled from the spec: \<open>find_or_create_by_uris(target_uri, other_uris)\<close>. When no
  document matches, one new document is created with one \<open>self-claim\<close> \<open>DocumentURI\<close>
  for the target URI (claimed by the target URI, as the tests show, with the
  \<open>created\<close> and \<open>updated\<close> that the tests pass); then the session is flushed, and a
  conflict is the retryable error.
\<close>

definition find_or_create_by_uris ::
  "string \<Rightarrow> string list \<Rightarrow> timestamp \<Rightarrow> timestamp \<Rightarrow> store
     \<Rightarrow> (store_error + document_id list) \<times> store" where
  "find_or_create_by_uris target_uri other_uris created updated st =
     (let found = find_by_uris (target_uri # other_uris) st;
          st1 = (if found = []
                 then st\<lparr>documents := documents st @
                            [\<lparr>doc_id = next_document_id st, web_uri = None, title = None,
                              doc_created = created, doc_updated = updated\<rparr>],
                         document_uris := document_uris st @
                            [\<lparr>uri_claimant = target_uri, uri_uri = target_uri,
                              uri_type = ''self-claim'', uri_content_type = '''',
                              uri_document = next_document_id st,
                              uri_created = created, uri_updated = updated\<rparr>],
                         next_document_id := Suc (next_document_id st)\<rparr>
                 else st)
      in case flush_or_retryable st1 of
           (Inl e, st2) \<Rightarrow> (Inl e, st2)
         | (Inr u, st2) \<Rightarrow> (Inr (find_by_uris (target_uri # other_uris) st2), st2))"

text \<open>
  Modelled from the spec: \<open>create_or_update_document_uri\<close>. \<open>None\<close> for \<open>type\<close> or
  \<open>content_type\<close> is the empty string, in the lookup key and in the stored row. An
  existing row with the key gets the given \<open>updated\<close>, and a warning is logged when it
  belongs to another document; otherwise a new row is added. Then \<open>web_uri\<close> of the
  document is set when it is unset and the URI starts with \<open>http://\<close> or \<open>https://\<close>,
  and the session is flushed.
\<close>

definition coerce_none :: "string option \<Rightarrow> string" where
  "coerce_none s = (case s of None \<Rightarrow> '''' | Some v \<Rightarrow> v)"

definition uri_key_matches :: "string \<Rightarrow> string \<Rightarrow> string \<Rightarrow> string \<Rightarrow> document_uri \<Rightarrow> bool" where
  "uri_key_matches claimant uri type content_type row \<longleftrightarrow>
     uri_claimant row = claimant \<and> uri_uri row = uri \<and> uri_type row = type
     \<and> uri_content_type row = content_type"

fun update_first :: "('a \<Rightarrow> bool) \<Rightarrow> ('a \<Rightarrow> 'a) \<Rightarrow> 'a list \<Rightarrow> 'a list" where
  "update_first p f [] = []"
| "update_first p f (x # xs) = (if p x then f x # xs else x # update_first p f xs)"

definition is_unset :: "string option \<Rightarrow> bool" where
  "is_unset s = (case s of None \<Rightarrow> True | Some v \<Rightarrow> v = [])"

definition is_http_uri :: "string \<Rightarrow> bool" where
  "is_http_uri uri \<longleftrightarrow> take 7 uri = ''http://'' \<or> take 8 uri = ''https://''"

definition denormalize_web_uri :: "document_id \<Rightarrow> string \<Rightarrow> store \<Rightarrow> store" where
  "denormalize_web_uri document uri st =
     st\<lparr>documents :=
          map (\<lambda>d. if doc_id d = document \<and> is_unset (web_uri d) \<and> is_http_uri uri
                    then d\<lparr>web_uri := Some uri\<rparr> else d)
            (documents st)\<rparr>"

definition document_mismatch_warning :: string where
  "document_mismatch_warning = ''existing claim belongs to a different document''"

definition create_or_update_document_uri ::
  "string \<Rightarrow> string \<Rightarrow> string option \<Rightarrow> string option \<Rightarrow> document_id \<Rightarrow> timestamp \<Rightarrow> timestamp
     \<Rightarrow> store \<Rightarrow> (store_error + unit) \<times> store" where
  "create_or_update_document_uri claimant uri type content_type document created updated st =
     (let ty = coerce_none type;
          ct = coerce_none content_type;
          st1 = (case find (uri_key_matches claimant uri ty ct) (document_uris st) of
                   Some existing \<Rightarrow>
                     st\<lparr>document_uris :=
                          update_first (uri_key_matches claimant uri ty ct)
                            (\<lambda>row. row\<lparr>uri_updated := updated\<rparr>) (document_uris st),
                        store_warnings :=
                          (if uri_document existing \<noteq> document
                           then store_warnings st @ [document_mismatch_warning]
                           else store_warnings st)\<rparr>
                 | None \<Rightarrow>
                     st\<lparr>document_uris := document_uris st @
                          [\<lparr>uri_claimant = claimant, uri_uri = uri, uri_type = ty,
                            uri_content_type = ct, uri_document = document,
                            uri_created = created, uri_updated = updated\<rparr>]\<rparr>);
          st2 = denormalize_web_uri document uri st1
      in flush_or_retryable st2)"

text \<open>
  Modelled from the spec: \<open>create_or_update_document_meta\<close>, looked up by claimant and
  type only. An existing row gets the given \<open>value\<close> and \<open>updated\<close>; otherwise a new row is
  added. For the type \<open>title\<close> the first element of the value becomes the document's
  title when that is unset (the spec takes the value to be non-empty there; on an empty
  one the model fails as \<open>value[0]\<close> does). Then the session is flushed.
\<close>

definition meta_key_matches :: "string \<Rightarrow> string \<Rightarrow> document_meta \<Rightarrow> bool" where
  "meta_key_matches claimant type row \<longleftrightarrow> meta_claimant row = claimant \<and> meta_type row = type"

definition denormalize_title :: "document_id \<Rightarrow> string \<Rightarrow> store \<Rightarrow> store" where
  "denormalize_title document v st =
     st\<lparr>documents :=
          map (\<lambda>d. if doc_id d = document \<and> is_unset (title d) then d\<lparr>title := Some v\<rparr> else d)
            (documents st)\<rparr>"

definition create_or_update_document_meta ::
  "string \<Rightarrow> string \<Rightarrow> string list \<Rightarrow> document_id \<Rightarrow> timestamp \<Rightarrow> timestamp
     \<Rightarrow> store \<Rightarrow> (store_error + unit) \<times> store" where
  "create_or_update_document_meta claimant type val document created updated st =
     (let st1 = (case find (meta_key_matches claimant type) (document_metas st) of
                   Some existing \<Rightarrow>
                     st\<lparr>document_metas :=
                          update_first (meta_key_matches claimant type)
                            (\<lambda>row. row\<lparr>meta_value := val, meta_updated := updated\<rparr>)
                            (document_metas st),
                        store_warnings :=
                          (if meta_document existing \<noteq> document
                           then store_warnings st @ [document_mismatch_warning]
                           else store_warnings st)\<rparr>
                 | None \<Rightarrow>
                     st\<lparr>document_metas := document_metas st @
                          [\<lparr>meta_claimant = claimant, meta_type = type, meta_value = val,
                            meta_document = document,
                            meta_created = created, meta_updated = updated\<rparr>]\<rparr>)
      in if type = ''title''
         then (case val of
                 [] \<Rightarrow> (Inl IndexError, st1)
               | v # _ \<Rightarrow> flush_or_retryable (denormalize_title document v st1))
         else flush_or_retryable st1)"

text \<open>
  Modelled from the spec: \<open>merge_documents(document_list)\<close>. The first element is the
  master. For every other document of the list, in order, the rows it owns are reassigned
  to the master, then the document is destroyed (with the rows it still owns: the spec's
  cascade). The master's \<open>updated\<close> is stamped when the caller passes one, and the session
  is flushed. The spec says nothing of an empty list; the model fails there, as
  \<open>document_list[0]\<close> does.
\<close>

definition reassign :: "document_id \<Rightarrow> document_id \<Rightarrow> store \<Rightarrow> store" where
  "reassign duplicate master st =
     st\<lparr>document_uris :=
          map (\<lambda>u. if uri_document u = duplicate then u\<lparr>uri_document := master\<rparr> else u)
            (document_uris st),
        document_metas :=
          map (\<lambda>m. if meta_document m = duplicate then m\<lparr>meta_document := master\<rparr> else m)
            (document_metas st)\<rparr>"

definition destroy :: "document_id \<Rightarrow> store \<Rightarrow> store" where
  "destroy d st =
     st\<lparr>documents := filter (\<lambda>x. doc_id x \<noteq> d) (documents st),
        document_uris := filter (\<lambda>u. uri_document u \<noteq> d) (document_uris st),
        document_metas := filter (\<lambda>m. meta_document m \<noteq> d) (document_metas st)\<rparr>"

fun merge_duplicates :: "document_id \<Rightarrow> document_id list \<Rightarrow> store \<Rightarrow> store" where
  "merge_duplicates master [] st = st"
| "merge_duplicates master (duplicate # rest) st =
     merge_duplicates master rest (destroy duplicate (reassign duplicate master st))"

definition stamp_updated :: "document_id \<Rightarrow> timestamp option \<Rightarrow> store \<Rightarrow> store" where
  "stamp_updated master updated st =
     (case updated of
        None \<Rightarrow> st
      | Some t \<Rightarrow>
          st\<lparr>documents :=
               map (\<lambda>d. if doc_id d = master then d\<lparr>doc_updated := t\<rparr> else d) (documents st)\<rparr>)"

definition merge_documents ::
  "document_id list \<Rightarrow> timestamp option \<Rightarrow> store \<Rightarrow> (store_error + document_id) \<times> store" where
  "merge_documents document_list updated st =
     (case document_list of
        [] \<Rightarrow> (Inl IndexError, st)
      | master # duplicates \<Rightarrow>
          (case flush_or_retryable (stamp_updated master updated (merge_duplicates master duplicates st)) of
             (Inl e, st') \<Rightarrow> (Inl e, st')
           | (Inr u, st') \<Rightarrow> (Inr master, st')))"

section \<open>Concrete inputs\<close>

subsection \<open>Search backends\<close>

text \<open>
  A backend with three annotations and 250 replies to them, which returns at most a page
  of 200 hits: it answers the annotation search (params \<open>{}\<close>) with the three hits, and
  the reply search with the first 200 replies and a total of 250.
\<close>

definition scenario_annotation_response :: "(nat, unit) response" where
  "scenario_annotation_response =
     \<lparr>hits_total = 3,
      hits_hits = [\<lparr>hit_id = ''a1'', hit_score = 30\<rparr>, \<lparr>hit_id = ''a2'', hit_score = 20\<rparr>,
                   \<lparr>hit_id = ''a3'', hit_score = 10\<rparr>],
      response_aggregations = None\<rparr>"

definition scenario_reply_response :: "(nat, unit) response" where
  "scenario_reply_response =
     \<lparr>hits_total = 250,
      hits_hits = map (\<lambda>n. \<lparr>hit_id = replicate (Suc n) (CHR ''r''), hit_score = 1\<rparr>) [0..<200],
      response_aggregations = None\<rparr>"

definition scenario_backend :: "(unit, nat, unit, unit) backend" where
  "scenario_backend calls b =
     (if built_params b = [] then scenario_annotation_response else scenario_reply_response)"

definition scenario_request :: "(unit, nat, unit, unit) request" where
  "scenario_request =
     \<lparr>request_id = (), request_es = scenario_backend,
      registry_filters = None, registry_matchers = None\<rparr>"

text \<open>
  Two backends with one hit each, and a backend whose index changes between the first
  call and the later ones: it answers the first call with the hit \<open>a1\<close>, and every later
  call with the hit \<open>b1\<close>.
\<close>

definition response_a1 :: "(nat, unit) response" where
  "response_a1 =
     \<lparr>hits_total = 1, hits_hits = [\<lparr>hit_id = ''a1'', hit_score = 30\<rparr>],
      response_aggregations = None\<rparr>"

definition response_b1 :: "(nat, unit) response" where
  "response_b1 =
     \<lparr>hits_total = 1, hits_hits = [\<lparr>hit_id = ''b1'', hit_score = 5\<rparr>],
      response_aggregations = None\<rparr>"

definition request_a1 :: "(unit, nat, unit, unit) request" where
  "request_a1 =
     \<lparr>request_id = (), request_es = (\<lambda>calls b. response_a1),
      registry_filters = None, registry_matchers = None\<rparr>"

definition request_b1 :: "(unit, nat, unit, unit) request" where
  "request_b1 =
     \<lparr>request_id = (), request_es = (\<lambda>calls b. response_b1),
      registry_filters = None, registry_matchers = None\<rparr>"

definition changing_request :: "(unit, nat, unit, unit) request" where
  "changing_request =
     \<lparr>request_id = (),
      request_es = (\<lambda>calls b. if calls = [] then response_a1 else response_b1),
      registry_filters = None, registry_matchers = None\<rparr>"

text \<open>
  A backend whose annotation search comes with two aggregation buckets, \<open>tags\<close> and
  \<open>users\<close>, and an aggregation component for the first of them.
\<close>

definition tags_aggregation :: "(nat, nat) aggregation" where
  "tags_aggregation = \<lparr>key = ''tags'', parse_result = (\<lambda>n. n + 1)\<rparr>"

definition aggregating_request :: "(unit, nat, nat, nat) request" where
  "aggregating_request =
     \<lparr>request_id = (),
      request_es = (\<lambda>calls b.
         \<lparr>hits_total = 1, hits_hits = [\<lparr>hit_id = ''a1'', hit_score = 30\<rparr>],
          response_aggregations = Some [(''tags'', 7), (''users'', 9)]\<rparr>),
      registry_filters = None, registry_matchers = None\<rparr>"

subsection \<open>A session with one user\<close>

definition example_session :: "nat session" where
  "example_session =
     \<lparr>rows = (\<lambda>u. if u = ''acct:foo@example.com'' then [7] else []),
      committed_rows = (\<lambda>u. if u = ''acct:foo@example.com'' then [7] else []),
      queries = [], after_commit = [], after_rollback = []\<rparr>"


subsection \<open>A document store\<close>

text \<open>
  The fixture \<open>merge_data\<close> of the tests: a master and a duplicate document, each with
  one URI row and one \<open>title\<close> row. \<open>contended_store\<close> is the same store when every flush
  meets a conflict (the tests replace \<open>flush\<close> by a function that raises), and
  \<open>empty_store\<close> holds one document and no row.
\<close>

definition merge_data :: store where
  "merge_data =
     \<lparr>documents =
        [\<lparr>doc_id = 1, web_uri = None, title = None, doc_created = 0, doc_updated = 0\<rparr>,
         \<lparr>doc_id = 2, web_uri = None, title = None, doc_created = 0, doc_updated = 0\<rparr>],
      document_uris =
        [\<lparr>uri_claimant = ''https://en.wikipedia.org/wiki/Main_Page'',
          uri_uri = ''https://en.wikipedia.org/wiki/Main_Page'',
          uri_type = ''self-claim'', uri_content_type = '''', uri_document = 1,
          uri_created = 0, uri_updated = 0\<rparr>,
         \<lparr>uri_claimant = ''https://m.en.wikipedia.org/wiki/Main_Page'',
          uri_uri = ''https://en.wikipedia.org/wiki/Main_Page'',
          uri_type = ''rel-canonical'', uri_content_type = '''', uri_document = 2,
          uri_created = 0, uri_updated = 0\<rparr>],
      document_metas =
        [\<lparr>meta_claimant = ''https://en.wikipedia.org/wiki/Main_Page'', meta_type = ''title'',
          meta_value = [''Wikipedia, the free encyclopedia''], meta_document = 1,
          meta_created = 0, meta_updated = 0\<rparr>,
         \<lparr>meta_claimant = ''https://m.en.wikipedia.org/wiki/Main_Page'', meta_type = ''title'',
          meta_value = [''Wikipedia, the free encyclopedia''], meta_document = 2,
          meta_created = 0, meta_updated = 0\<rparr>],
      next_document_id = 3, store_warnings = [], flushes = 0, conflicts = (\<lambda>n. False)\<rparr>"

definition empty_store :: store where
  "empty_store =
     \<lparr>documents = [\<lparr>doc_id = 1, web_uri = None, title = None, doc_created = 0, doc_updated = 0\<rparr>],
      document_uris = [], document_metas = [],
      next_document_id = 2, store_warnings = [], flushes = 0, conflicts = (\<lambda>n. False)\<rparr>"

definition contended_store :: store where
  "contended_store = merge_data\<lparr>conflicts := (\<lambda>n. True)\<rparr>"

section \<open>Properties\<close>

subsection \<open>Properties of the search orchestrator\<close>

lemma record_scores_other: "b \<noteq> a \<Longrightarrow> record_scores a hits ds b = ds b"
  by (induction hits arbitrary: ds) auto

lemma record_scores_absent:
  "k \<notin> hit_id ` set hits \<Longrightarrow> record_scores a hits ds a k = ds a k"
  by (induction hits arbitrary: ds) auto

lemma record_scores_present:
  "k \<in> hit_id ` set hits \<Longrightarrow> record_scores a hits ds a k \<noteq> None"
proof (induction hits arbitrary: ds)
  case Nil
  then show ?case by simp
next
  case (Cons h hits)
  show ?case
  proof (cases "k \<in> hit_id ` set hits")
    case True
    then show ?thesis using Cons.IH by simp
  next
    case False
    with Cons.prems have "k = hit_id h" by auto
    with False show ?thesis by (simp add: record_scores_absent)
  qed
qed

text \<open>What one call of \<open>search_annotations\<close> returns and leaves behind.\<close>

lemma search_annotations_result:
  assumes "search_annotations ps s w = ((t, ids, m, ags), s', w')"
  shows "m = module_annotation_ids_map"
    and "s' = (if separate_replies s
               then s\<lparr>builder := builder_append_filter TopLevelAnnotationsFilter (builder s)\<rparr> else s)"
    and "t = hits_total (es s (es_calls w) (build (builder s') ps))"
    and "ids = map hit_id (hits_hits (es s (es_calls w) (build (builder s') ps)))"
    and "ags = parse_aggregation_results s' (response_aggregations (es s (es_calls w) (build (builder s') ps)))"
    and "es_calls w' = es_calls w @ [build (builder s') ps]"
    and "log_warnings w' = log_warnings w"
    and "score_dicts w' = record_scores module_annotation_ids_map
            (hits_hits (es s (es_calls w) (build (builder s') ps))) (score_dicts w)"
  using assms
  by (auto simp: search_annotations_def conn_search_def Let_def split: if_splits)

text \<open>
  C1. An orchestrator constructed with \<open>separate_replies=True\<close> runs \<open>run({})\<close> against
  a backend that answers the annotation search with 3 hits (total 3) and the reply search
  with a page of 200 hits and a total of 250. The result has \<open>total = 3\<close>, the ids of the
  3 annotation hits in the backend's order, the ids of the 200 reply hits, and the
  truncation warning is logged.
\<close>

theorem run_separate_replies_scenario:
  fixes rq :: "('rq, 'sc, 'raw, 'val) request" and w :: "('rq, 'sc, 'raw, 'val) world"
  assumes r1: "r1 = request_es rq (es_calls w)
                 (build (builder_append_filter TopLevelAnnotationsFilter (default_querybuilder rq)) [])"
      and n1: "length (hits_hits r1) = 3" and t1: "hits_total r1 = 3"
      and r2: "r2 = request_es rq
                 (es_calls w @
                    [build (builder_append_filter TopLevelAnnotationsFilter (default_querybuilder rq)) []])
                 (build (builder_append_matcher (RepliesMatcher (map hit_id (hits_hits r1)))
                           (default_querybuilder rq))
                    [(''limit'', PInt 200)])"
      and n2: "length (hits_hits r2) = 200" and t2: "hits_total r2 = 250"
      and res: "run [] (Search rq True) w = (res, s', w')"
  shows "total res = 3 \<and> annotation_ids res = map hit_id (hits_hits r1)
       \<and> length (annotation_ids res) = 3
       \<and> reply_ids res = map hit_id (hits_hits r2) \<and> length (reply_ids res) = 200
       \<and> log_warnings w' = log_warnings w @ [reply_overflow_warning]"
  using assms
  by (auto simp: run_def search_annotations_def search_replies_def conn_search_def Search_def
        Let_def split: prod.splits)

theorem run_separate_replies_scenario_witness:
  "total (fst (run [] (Search scenario_request True) module_import)) = 3
   \<and> annotation_ids (fst (run [] (Search scenario_request True) module_import))
       = [''a1'', ''a2'', ''a3'']
   \<and> length (reply_ids (fst (run [] (Search scenario_request True) module_import))) = 200
   \<and> log_warnings (snd (snd (run [] (Search scenario_request True) module_import)))
       = [reply_overflow_warning]"
proof -
  have a: "request_es scenario_request = scenario_backend"
    by (simp add: scenario_request_def)
  have n1: "length (hits_hits (scenario_annotation_response)) = 3"
    and t1: "hits_total scenario_annotation_response = 3"
    and n2: "length (hits_hits (scenario_reply_response)) = 200"
    and t2: "hits_total scenario_reply_response = 250"
    by (simp_all add: scenario_annotation_response_def scenario_reply_response_def)
  have b1: "scenario_annotation_response = request_es scenario_request (es_calls module_import)
              (build (builder_append_filter TopLevelAnnotationsFilter
                        (default_querybuilder scenario_request)) [])"
    by (simp add: a scenario_backend_def build_def)
  have b2: "scenario_reply_response = request_es scenario_request
              (es_calls module_import @
                 [build (builder_append_filter TopLevelAnnotationsFilter
                           (default_querybuilder scenario_request)) []])
              (build (builder_append_matcher
                        (RepliesMatcher (map hit_id (hits_hits scenario_annotation_response)))
                        (default_querybuilder scenario_request))
                 [(''limit'', PInt 200)])"
    by (simp add: a scenario_backend_def build_def)
  have c: "run [] (Search scenario_request True) module_import =
      (fst (run [] (Search scenario_request True) module_import),
       fst (snd (run [] (Search scenario_request True) module_import)),
       snd (snd (run [] (Search scenario_request True) module_import)))"
    by simp
  show ?thesis
    using run_separate_replies_scenario [OF b1 n1 t1 b2 n2 t2 c] n2
    by (simp add: scenario_annotation_response_def module_import_def)
qed

text \<open>
  C2. The score map that \<open>search_annotations\<close> returns is the dictionary of the module,
  shared by every call: when two successive calls (on any two \<open>Search\<close> objects) get
  disjoint hit ids from the backend, the two calls return the same dictionary object, and
  every id recorded by the first call is still in it, with the same score, after the
  second call.
\<close>

theorem search_annotations_score_map_shared:
  assumes c1: "search_annotations ps1 s1 w = ((t1, ids1, m1, ags1), s1', w1)"
      and c2: "search_annotations ps2 s2 w1 = ((t2, ids2, m2, ags2), s2', w2)"
      and dj: "set ids1 \<inter> set ids2 = {}"
      and k: "k \<in> set ids1"
  shows "m2 = m1 \<and> score_dicts w1 m1 k \<noteq> None \<and> score_dicts w2 m2 k = score_dicts w1 m1 k"
proof -
  have m: "m1 = module_annotation_ids_map" "m2 = module_annotation_ids_map"
    using search_annotations_result(1) [OF c1] search_annotations_result(1) [OF c2] by simp_all
  from k search_annotations_result(4) [OF c1] search_annotations_result(8) [OF c1]
  have p: "score_dicts w1 m1 k \<noteq> None"
    by (simp add: m record_scores_present)
  from k dj have "k \<notin> set ids2" by auto
  with search_annotations_result(4) [OF c2] search_annotations_result(8) [OF c2]
  have "score_dicts w2 m2 k = score_dicts w1 m1 k"
    by (simp add: m record_scores_absent)
  with p m show ?thesis by simp
qed

theorem search_annotations_score_map_shared_witness:
  "score_dicts
     (snd (snd (search_annotations [] (Search request_b1 True)
        (snd (snd (search_annotations [] (Search request_a1 False) module_import))))))
     module_annotation_ids_map ''a1'' = Some 30"
proof -
  define w1 where "w1 = snd (snd (search_annotations [] (Search request_a1 False)
                                    (module_import :: (unit, nat, unit, unit) world)))"
  define s1' where "s1' = fst (snd (search_annotations [] (Search request_a1 False)
                                      (module_import :: (unit, nat, unit, unit) world)))"
  define w2 where "w2 = snd (snd (search_annotations [] (Search request_b1 True) w1))"
  define s2' where "s2' = fst (snd (search_annotations [] (Search request_b1 True) w1))"
  have c1: "search_annotations [] (Search request_a1 False) module_import =
        ((1, [''a1''], module_annotation_ids_map, Map.empty), s1', w1)"
    unfolding s1'_def w1_def
    by (simp add: search_annotations_def conn_search_def Search_def request_a1_def response_a1_def
          parse_aggregation_results_def Let_def)
  have c2: "search_annotations [] (Search request_b1 True) w1 =
        ((1, [''b1''], module_annotation_ids_map, Map.empty), s2', w2)"
    unfolding s2'_def w2_def
    by (simp add: search_annotations_def conn_search_def Search_def request_b1_def response_b1_def
          parse_aggregation_results_def Let_def)
  have v: "score_dicts w1 module_annotation_ids_map ''a1'' = Some 30"
    unfolding w1_def
    by (simp add: search_annotations_def conn_search_def Search_def request_a1_def response_a1_def
          parse_aggregation_results_def Let_def module_import_def)
  have dj: "set [''a1''] \<inter> set [''b1''] = {}" by simp
  have k: "''a1'' \<in> set [''a1'']" by simp
  show ?thesis
    using search_annotations_score_map_shared [OF c1 c2 dj k] v
    by (simp add: w1_def w2_def)
qed

text \<open>
  C3 (the code does otherwise). The field \<open>annotation_ids_map\<close> of a \<open>SearchResult\<close> is
  the dictionary of the module itself. \<open>run({})\<close> is called twice on one \<open>Search\<close>
  object, against a backend whose index changed in between: the two results hold the
  same dictionary, and the id \<open>b1\<close>, which is not in the first result's score map when
  the first call returns, is in it after the second call.
\<close>

theorem search_result_score_map_changed_by_later_run:
  "(let (r1, s1, w1) = run [] (Search changing_request False) module_import;
        (r2, s2, w2) = run [] s1 w1
    in annotation_ids_map r1 = annotation_ids_map r2
       \<and> score_dicts w1 (annotation_ids_map r1) ''b1'' = None
       \<and> score_dicts w2 (annotation_ids_map r1) ''b1'' = Some 5)"
  by (simp add: run_def search_annotations_def search_replies_def conn_search_def Search_def
        changing_request_def response_a1_def response_b1_def module_import_def
        parse_aggregation_results_def Let_def)

lemma search_replies_result:
  assumes "separate_replies s" and "search_replies ids s w = (rids, s', w')"
  shows "s' = s\<lparr>reply_builder := builder_append_matcher (RepliesMatcher ids) (reply_builder s)\<rparr>"
    and "es_calls w' = es_calls w @ [build (reply_builder s') [(''limit'', PInt 200)]]"
    and "rids = map hit_id (hits_hits (es s (es_calls w) (build (reply_builder s') [(''limit'', PInt 200)])))"
    and "log_warnings w' =
          (if int (length (hits_hits (es s (es_calls w) (build (reply_builder s') [(''limit'', PInt 200)]))))
               < hits_total (es s (es_calls w) (build (reply_builder s') [(''limit'', PInt 200)]))
           then log_warnings w @ [reply_overflow_warning] else log_warnings w)"
    and "score_dicts w' = score_dicts w"
  using assms
  by (auto simp: search_replies_def conn_search_def Let_def split: if_splits)

lemma search_replies_off:
  "\<not> separate_replies s \<Longrightarrow> search_replies ids s w = ([], s, w)"
  by (simp add: search_replies_def)

lemma filters_append_filters: "filters (append_filters fs b) = filters b @ fs"
  by (induction fs arbitrary: b) (simp_all add: builder_append_filter_def)

lemma filters_append_matchers: "filters (append_matchers ms b) = filters b"
  by (induction ms arbitrary: b) (simp_all add: builder_append_matcher_def)

lemma filters_default_querybuilder:
  "filters (default_querybuilder rq) =
     [AuthFilter (request_id rq), UriFilter (request_id rq), GroupFilter, UserFilter]
     @ map (\<lambda>factory. factory (request_id rq)) (registry_get (registry_filters rq))"
  by (simp add: default_querybuilder_def Let_def filters_append_filters filters_append_matchers
        builder_append_filter_def builder_append_matcher_def Builder_def)

text \<open>What one call of run does to the Search object and to the record of backend calls.\<close>

lemma parse_aggregation_results_builder:
  "builder s = builder t \<Longrightarrow> parse_aggregation_results s = parse_aggregation_results t"
  by (rule ext) (simp add: parse_aggregation_results_def split: option.splits list.splits)

lemma run_search_object:
  assumes rn: "run ps s w = (res, s', w')"
  shows "separate_replies s' = separate_replies s"
    and "es s' = es s"
    and "builder s' = (if separate_replies s
                       then builder_append_filter TopLevelAnnotationsFilter (builder s)
                       else builder s)"
    and "take (Suc (length (es_calls w))) (es_calls w') = es_calls w @ [build (builder s') ps]"
    and "result_aggregations res =
           parse_aggregation_results s' (response_aggregations (es s (es_calls w) (build (builder s') ps)))"
proof -
  obtain t ids m ags s1 w1 where sa: "search_annotations ps s w = ((t, ids, m, ags), s1, w1)"
    by (metis prod_cases3)
  obtain rids s2 w2 where sr: "search_replies ids s1 w1 = (rids, s2, w2)"
    by (metis prod_cases3)
  from rn sa sr have e: "result_aggregations res = ags" "s' = s2" "w' = w2"
    by (auto simp: run_def)
  note A = search_annotations_result [OF sa]
  have s1: "separate_replies s1 = separate_replies s" "es s1 = es s"
    "builder s1 = (if separate_replies s
                   then builder_append_filter TopLevelAnnotationsFilter (builder s)
                   else builder s)"
    using A(2) by simp_all
  have s2: "separate_replies s2 = separate_replies s1" "es s2 = es s1" "builder s2 = builder s1"
    and c2: "take (Suc (length (es_calls w))) (es_calls w2) = es_calls w @ [build (builder s1) ps]"
  proof -
    show "separate_replies s2 = separate_replies s1" "es s2 = es s1" "builder s2 = builder s1"
      using sr by (auto simp: search_replies_def conn_search_def Let_def split: if_splits prod.splits)
    show "take (Suc (length (es_calls w))) (es_calls w2) = es_calls w @ [build (builder s1) ps]"
    proof (cases "separate_replies s1")
      case True
      from search_replies_result(2) [OF True sr] A(6) show ?thesis by simp
    next
      case False
      from search_replies_off [OF False, of ids w1] sr A(6) show ?thesis by simp
    qed
  qed
  show "separate_replies s' = separate_replies s" using e s1 s2 by simp
  show "es s' = es s" using e s1 s2 by simp
  show "builder s' = (if separate_replies s
                       then builder_append_filter TopLevelAnnotationsFilter (builder s)
                       else builder s)"
    using e s1 s2 by simp
  show "take (Suc (length (es_calls w))) (es_calls w') = es_calls w @ [build (builder s') ps]"
    using e c2 s2 by simp
  show "result_aggregations res =
           parse_aggregation_results s' (response_aggregations (es s (es_calls w) (build (builder s') ps)))"
  proof -
    have "builder s' = builder s1" using e s2 by simp
    then have "parse_aggregation_results s' = parse_aggregation_results s1"
      by (rule parse_aggregation_results_builder)
    with e A(5) s2 show ?thesis by simp
  qed
qed

lemma count_list_replicate_same: "count_list (replicate n x) x = n"
  by (induction n) simp_all

lemma run_seq_filters:
  "run_seq pss s w = (rs, sn, wn) \<Longrightarrow>
     length rs = length pss \<and>
     filters (builder sn) =
       filters (builder s) @
         replicate (if separate_replies s then length pss else 0) TopLevelAnnotationsFilter"
proof (induction pss arbitrary: s w rs sn wn)
  case Nil
  then show ?case by simp
next
  case (Cons ps pss)
  obtain res s1 w1 where r: "run ps s w = (res, s1, w1)"
    by (metis prod_cases3)
  obtain rs' s2 w2 where q: "run_seq pss s1 w1 = (rs', s2, w2)"
    by (metis prod_cases3)
  from Cons.prems r q have e: "rs = res # rs'" "sn = s2" "wn = w2"
    by simp_all
  note IH = Cons.IH [OF q]
  note R = run_search_object [OF r]
  show ?case
    using IH R(1) R(3) e
    by (simp add: builder_append_filter_def replicate_append_same)
qed

lemma run_collapse: "run ps s w = (fst (run ps s w), fst (snd (run ps s w)), snd (snd (run ps s w)))"
  by simp

lemma run_seq_collapse:
  "run_seq pss s w = (fst (run_seq pss s w), fst (snd (run_seq pss s w)), snd (snd (run_seq pss s w)))"
  by simp

text \<open>
  C4. When replies are separated, \<open>run\<close> makes exactly two backend calls: the annotation
  search, and one reply search, built from the reply builder with a \<open>RepliesMatcher\<close> on
  the annotation ids of the first search appended, with params \<open>{'limit': 200}\<close>. The
  reply ids are the hits of that one response; when the response has fewer hits than its
  total, the warning is logged, and no further call is made.
\<close>

theorem run_reply_search_single_capped_call:
  assumes sep: "separate_replies s"
      and rn: "run ps s w = (res, s', w')"
      and b1: "body1 = build (builder_append_filter TopLevelAnnotationsFilter (builder s)) ps"
      and b2: "body2 = build (builder_append_matcher (RepliesMatcher (annotation_ids res)) (reply_builder s))
                         [(''limit'', PInt 200)]"
      and r2: "r2 = es s (es_calls w @ [body1]) body2"
  shows "es_calls w' = es_calls w @ [body1, body2]
       \<and> annotation_ids res = map hit_id (hits_hits (es s (es_calls w) body1))
       \<and> reply_ids res = map hit_id (hits_hits r2)
       \<and> log_warnings w' =
           (if int (length (hits_hits r2)) < hits_total r2
            then log_warnings w @ [reply_overflow_warning] else log_warnings w)"
proof -
  obtain t ids m ags s1 w1 where sa: "search_annotations ps s w = ((t, ids, m, ags), s1, w1)"
    by (metis prod_cases3)
  obtain rids s2 w2 where sr: "search_replies ids s1 w1 = (rids, s2, w2)"
    by (metis prod_cases3)
  from rn sa sr have res: "annotation_ids res = ids" "reply_ids res = rids" "w' = w2"
    by (auto simp: run_def)
  note A = search_annotations_result [OF sa]
  from A(2) sep have s1: "s1 = s\<lparr>builder := builder_append_filter TopLevelAnnotationsFilter (builder s)\<rparr>"
    by simp
  then have sep1: "separate_replies s1" and e1: "es s1 = es s" and rb: "reply_builder s1 = reply_builder s"
    and bb: "build (builder s1) ps = body1"
    using sep b1 by simp_all
  note R = search_replies_result [OF sep1 sr]
  have bd2: "build (reply_builder s2) [(''limit'', PInt 200)] = body2"
    using R(1) rb b2 res(1) by simp
  show ?thesis
    using A(4) A(6) A(7) R(2) R(3) R(4) res r2
    by (simp add: bb bd2 e1)
qed

theorem run_reply_search_single_capped_call_witness:
  "es_calls (snd (snd (run [] (Search scenario_request True) module_import))) =
     [build (builder_append_filter TopLevelAnnotationsFilter (default_querybuilder scenario_request)) [],
      build (builder_append_matcher (RepliesMatcher [''a1'', ''a2'', ''a3''])
               (default_querybuilder scenario_request)) [(''limit'', PInt 200)]]
   \<and> length (reply_ids (fst (run [] (Search scenario_request True) module_import))) = 200
   \<and> log_warnings (snd (snd (run [] (Search scenario_request True) module_import)))
       = [reply_overflow_warning]"
proof -
  have sep: "separate_replies (Search scenario_request True)"
    by (simp add: Search_def)
  have e: "es (Search scenario_request True) = scenario_backend"
    "builder (Search scenario_request True) = default_querybuilder scenario_request"
    "reply_builder (Search scenario_request True) = default_querybuilder scenario_request"
    by (simp_all add: Search_def scenario_request_def)
  have n2: "length (hits_hits scenario_reply_response) = 200"
    and t2: "hits_total scenario_reply_response = 250"
    by (simp_all add: scenario_reply_response_def)
  have a: "map hit_id (hits_hits scenario_annotation_response) = [''a1'', ''a2'', ''a3'']"
    by (simp add: scenario_annotation_response_def)
  show ?thesis
    using run_reply_search_single_capped_call
            [OF sep run_collapse [of "[]" "Search scenario_request True" module_import] refl refl refl]
          n2 t2 a
    by (simp add: e scenario_backend_def build_def module_import_def)
qed

text \<open>
  C5. A call of \<open>run\<close> on a \<open>Search\<close> that separates replies appends one
  \<open>TopLevelAnnotationsFilter\<close> to the annotation builder, and the annotation search is
  built from the builder that has it; a \<open>Search\<close> that does not separate replies gets no
  filter appended. After \<open>n\<close> calls of \<open>run\<close> on a \<open>Search\<close> constructed with
  \<open>separate_replies=True\<close> (whose registered filter factories make no such filter), the
  filters of the annotation builder are the default ones followed by \<open>n\<close> such filters.
\<close>

theorem run_appends_top_level_filter_each_call:
  assumes one: "run ps s w = (res, s1, w1)"
      and many: "run_seq pss (Search rq sep) v = (rs, sn, vn)"
      and reg: "TopLevelAnnotationsFilter \<notin>
                  (\<lambda>factory. factory (request_id rq)) ` set (registry_get (registry_filters rq))"
  shows "filters (builder s1) =
           filters (builder s) @ (if separate_replies s then [TopLevelAnnotationsFilter] else [])
       \<and> take (Suc (length (es_calls w))) (es_calls w1) = es_calls w @ [build (builder s1) ps]
       \<and> filters (builder sn) =
           filters (default_querybuilder rq) @
             replicate (if sep then length pss else 0) TopLevelAnnotationsFilter
       \<and> count_list (filters (builder sn)) TopLevelAnnotationsFilter = (if sep then length pss else 0)"
proof -
  note R = run_search_object [OF one]
  have a: "filters (builder s1) =
           filters (builder s) @ (if separate_replies s then [TopLevelAnnotationsFilter] else [])"
    using R(3) by (simp add: builder_append_filter_def)
  have b: "filters (builder sn) =
           filters (default_querybuilder rq) @
             replicate (if sep then length pss else 0) TopLevelAnnotationsFilter"
    using run_seq_filters [OF many] by (simp add: Search_def)
  have "count_list (filters (default_querybuilder rq)) TopLevelAnnotationsFilter = 0"
    using reg by (simp add: filters_default_querybuilder count_list_0_iff)
  then have c: "count_list (filters (builder sn)) TopLevelAnnotationsFilter = (if sep then length pss else 0)"
    by (simp add: b count_list_replicate_same)
  from a R(4) b c show ?thesis by simp
qed
theorem run_appends_top_level_filter_each_call_witness:
  "filters (builder (fst (snd (run_seq [[], []] (Search scenario_request True) module_import)))) =
     [AuthFilter (), UriFilter (), GroupFilter, UserFilter,
      TopLevelAnnotationsFilter, TopLevelAnnotationsFilter]
   \<and> count_list
        (filters (builder (fst (snd (run_seq [[], []] (Search scenario_request True) module_import)))))
        TopLevelAnnotationsFilter = 2
   \<and> filters (builder (fst (snd (run [] (Search scenario_request False) module_import)))) =
     [AuthFilter (), UriFilter (), GroupFilter, UserFilter]"
proof -
  have reg: "TopLevelAnnotationsFilter \<notin>
               (\<lambda>factory. factory (request_id scenario_request)) `
                 set (registry_get (registry_filters scenario_request))"
    by (simp add: scenario_request_def registry_get_def)
  have f: "filters (default_querybuilder scenario_request) =
             [AuthFilter (), UriFilter (), GroupFilter, UserFilter]"
    by (simp add: filters_default_querybuilder scenario_request_def registry_get_def)
  have b: "builder (Search scenario_request False) = default_querybuilder scenario_request"
    "\<not> separate_replies (Search scenario_request False)"
    by (simp_all add: Search_def)
  show ?thesis
    using run_appends_top_level_filter_each_call
            [OF run_collapse [of "[]" "Search scenario_request False" module_import]
                run_seq_collapse [of "[[], []]" "Search scenario_request True" module_import] reg]
    by (simp add: f b)
qed

lemma parse_bucket_find:
  "parse_bucket k raw aggs results =
     (case find (\<lambda>a. key a = k) aggs of
        None \<Rightarrow> results
      | Some a \<Rightarrow> results(k \<mapsto> parse_result a raw))"
  by (induction aggs) auto

lemma parse_buckets_lookup:
  "distinct (map fst items) \<Longrightarrow>
   parse_buckets items aggs results name =
     (case map_of items name of
        None \<Rightarrow> results name
      | Some raw \<Rightarrow>
          (case find (\<lambda>a. key a = name) aggs of
             None \<Rightarrow> results name
           | Some a \<Rightarrow> Some (parse_result a raw)))"
proof (induction items arbitrary: results)
  case Nil
  then show ?case by simp
next
  case (Cons item items)
  obtain k raw where item: "item = (k, raw)" by (cases item)
  from Cons.prems item have d: "distinct (map fst items)" and nk: "k \<notin> fst ` set items"
    by auto
  from nk have mk: "map_of items k = None"
    by (simp add: map_of_eq_None_iff)
  show ?case
    using Cons.IH [OF d, of "parse_bucket k raw aggs results"] mk
    by (auto simp: item parse_bucket_find split: option.splits)
qed

text \<open>
  C6. In the result of \<open>run\<close>, the aggregation under a name is what \<open>parse_result\<close> of
  the first aggregation component of the annotation builder with that key makes of the
  bucket of that name in the annotation search's response; a name with no bucket, or with
  no component of that key, is absent, and so is every name when the response has no
  aggregations. (The buckets of a response are a dictionary: their names are distinct.)
\<close>

theorem run_aggregations_dispatch:
  assumes rn: "run ps s w = (res, s', w')"
      and r1: "r1 = es s (es_calls w) (build (builder s') ps)"
      and dk: "distinct (map fst (case response_aggregations r1 of None \<Rightarrow> [] | Some items \<Rightarrow> items))"
  shows "aggregations (builder s') = aggregations (builder s)
       \<and> result_aggregations res name =
           (case response_aggregations r1 of
              None \<Rightarrow> None
            | Some items \<Rightarrow>
                (case map_of items name of
                   None \<Rightarrow> None
                 | Some raw \<Rightarrow>
                     (case find (\<lambda>a. key a = name) (aggregations (builder s)) of
                        None \<Rightarrow> None
                      | Some a \<Rightarrow> Some (parse_result a raw))))"
proof -
  note R = run_search_object [OF rn]
  have ag: "aggregations (builder s') = aggregations (builder s)"
    using R(3) by (simp add: builder_append_filter_def)
  have "result_aggregations res name = parse_aggregation_results s' (response_aggregations r1) name"
    using R(5) r1 by simp
  also have "\<dots> = (case response_aggregations r1 of
              None \<Rightarrow> None
            | Some items \<Rightarrow>
                (case map_of items name of
                   None \<Rightarrow> None
                 | Some raw \<Rightarrow>
                     (case find (\<lambda>a. key a = name) (aggregations (builder s)) of
                        None \<Rightarrow> None
                      | Some a \<Rightarrow> Some (parse_result a raw))))"
  proof (cases "response_aggregations r1")
    case None
    then show ?thesis by (simp add: parse_aggregation_results_def)
  next
    case (Some items)
    with dk have d: "distinct (map fst items)" by simp
    show ?thesis
    proof (cases items)
      case Nil
      with Some show ?thesis by (simp add: parse_aggregation_results_def)
    next
      case (Cons item rest)
      with Some have "parse_aggregation_results s' (response_aggregations r1) name
          = parse_buckets items (aggregations (builder s)) Map.empty name"
        by (simp add: parse_aggregation_results_def ag)
      with Some show ?thesis
        by (simp add: parse_buckets_lookup [OF d])
    qed
  qed
  finally show ?thesis using ag by simp
qed

theorem run_aggregations_dispatch_witness:
  "result_aggregations
     (fst (run [] (append_aggregation tags_aggregation (Search aggregating_request False))
             module_import)) ''tags'' = Some 8
   \<and> result_aggregations
     (fst (run [] (append_aggregation tags_aggregation (Search aggregating_request False))
             module_import)) ''users'' = None"
proof -
  define s where "s = append_aggregation tags_aggregation (Search aggregating_request False)"
  have e: "es s = request_es aggregating_request"
    "aggregations (builder s) = [tags_aggregation]"
    by (simp_all add: s_def append_aggregation_def Search_def builder_append_aggregation_def
          default_querybuilder_def Let_def registry_get_def aggregating_request_def
          builder_append_filter_def builder_append_matcher_def Builder_def)
  have r: "response_aggregations (request_es aggregating_request calls b)
             = Some [(''tags'', 7), (''users'', 9)]" for calls b
    by (simp add: aggregating_request_def)
  have d: "distinct (map fst (case response_aggregations
             (es s (es_calls module_import)
                (build (builder (fst (snd (run [] s module_import)))) []))
             of None \<Rightarrow> [] | Some items \<Rightarrow> items))"
    by (simp add: e r)
  have t: "result_aggregations (fst (run [] s module_import)) ''tags'' = Some 8"
    using run_aggregations_dispatch [OF run_collapse [of "[]" s module_import] refl d, of "''tags''"]
    by (simp add: r e tags_aggregation_def)
  have u: "result_aggregations (fst (run [] s module_import)) ''users'' = None"
    using run_aggregations_dispatch [OF run_collapse [of "[]" s module_import] refl d, of "''users''"]
    by (simp add: r e tags_aggregation_def)
  from t u show ?thesis by (simp add: s_def)
qed

subsection \<open>Properties of the user service\<close>

lemma run_listeners_session: "session (run_listeners ls svc) = session svc"
  by (induction ls svc rule: run_listeners.induct) (simp_all add: flush_cache_def)

lemma run_listeners_cache:
  "cache (run_listeners ls svc) = (if ls = [] then cache svc else Map.empty)"
  by (induction ls svc rule: run_listeners.induct) (auto simp: flush_cache_def)

lemma fetch_listeners:
  "after_commit (session (snd (fetch u svc))) = after_commit (session svc)"
  "after_rollback (session (snd (fetch u svc))) = after_rollback (session svc)"
  by (auto simp: fetch_def Let_def split: option.splits sum.splits)

lemma step_listeners:
  "after_commit (session (step op svc)) = after_commit (session svc)
   \<and> after_rollback (session (step op svc)) = after_rollback (session svc)"
  by (cases op) (simp_all add: fetch_listeners commit_def rollback_def run_listeners_session)

lemma steps_listeners:
  "after_commit (session (steps ops svc)) = after_commit (session svc)
   \<and> after_rollback (session (steps ops svc)) = after_rollback (session svc)"
  by (induction ops arbitrary: svc) (simp_all add: step_listeners)

lemma fetch_cached:
  "cache svc u = Some r \<Longrightarrow> fetch u svc = (Inr r, svc)"
  by (simp add: fetch_def)

lemma step_keeps_cached:
  assumes "cache svc u = Some r" and "\<not> is_boundary op"
  shows "cache (step op svc) u = Some r
       \<and> count_list (queries (session (step op svc))) u = count_list (queries (session svc)) u"
proof (cases op)
  case (Fetch v)
  show ?thesis
  proof (cases "v = u")
    case True
    with assms Fetch show ?thesis by (simp add: fetch_cached)
  next
    case False
    with assms Fetch show ?thesis
      by (auto simp: fetch_def Let_def split: option.splits sum.splits)
  qed
next
  case (Write v found)
  with assms show ?thesis by simp
next
  case (Concurrent_write v found)
  with assms show ?thesis by simp
next
  case Commit
  with assms show ?thesis by simp
next
  case Rollback
  with assms show ?thesis by simp
qed

lemma steps_keep_cached:
  "cache svc u = Some r \<Longrightarrow> list_all (\<lambda>op. \<not> is_boundary op) ops \<Longrightarrow>
   cache (steps ops svc) u = Some r
   \<and> count_list (queries (session (steps ops svc))) u = count_list (queries (session svc)) u"
proof (induction ops arbitrary: svc)
  case Nil
  then show ?case by simp
next
  case (Cons op ops)
  from Cons.prems have a: "\<not> is_boundary op" and b: "list_all (\<lambda>op. \<not> is_boundary op) ops"
    by simp_all
  note S = step_keeps_cached [OF Cons.prems(1) a]
  from Cons.IH [OF conjunct1 [OF S] b] S show ?case by simp
qed

lemma fetch_returns:
  assumes "fetch u svc = (Inr r, svc1)"
  shows "cache svc1 u = Some r"
    and "count_list (queries (session svc1)) u \<le> Suc (count_list (queries (session svc)) u)"
  using assms
  by (auto simp: fetch_def Let_def split: option.splits sum.splits)

lemma fetch_uncached:
  assumes "cache svc u = None"
  shows "fst (fetch u svc) = one_or_none (rows (session svc) u)"
    and "queries (session (snd (fetch u svc))) = queries (session svc) @ [u]"
  using assms
  by (auto simp: fetch_def Let_def split: sum.splits)

text \<open>
  A commit or a rollback empties the cache and issues no query; what a query finds
  afterwards is what the session holds after the commit, or after the uncommitted writes
  were undone.
\<close>

lemma boundary_flushes:
  assumes "is_boundary b" and "after_commit (session svc) \<noteq> []" and "after_rollback (session svc) \<noteq> []"
  shows "cache (step b svc) = Map.empty"
    and "queries (session (step b svc)) = queries (session svc)"
    and "rows (session (step b svc)) =
           (if b = Rollback then committed_rows (session svc) else rows (session svc))"
  using assms
  by (cases b; simp add: commit_def rollback_def run_listeners_cache run_listeners_session)+

text \<open>
  C10. For a \<open>UserService\<close> on its session, in any state it can reach: when \<open>fetch\<close> of
  a userid returns, and no commit or rollback happens before the next \<open>fetch\<close> of the same
  userid (whatever else is fetched or written in between, by the session or by another
  transaction), the second call returns the same result and issues no query, so that at
  most one query for the userid was issued by the two calls and everything between them.
  After a commit or a rollback of the session the cache is empty, and the next \<open>fetch\<close>
  queries the store again: it issues one query and returns what the store holds for the
  userid after the commit (the rows as written) or after the rollback (the rows without the
  uncommitted writes of the session).
\<close>

theorem fetch_cached_between_transaction_boundaries:
  assumes reach: "svc = steps before (UserService sess)"
      and f1: "fetch u svc = (Inr r1, svc1)"
      and nb: "list_all (\<lambda>op. \<not> is_boundary op) ops"
      and f2: "fetch u (steps ops svc1) = (r2, svc2)"
      and bd: "is_boundary b"
  shows "r2 = Inr r1
       \<and> queries (session svc2) = queries (session (steps ops svc1))
       \<and> count_list (queries (session svc2)) u \<le> Suc (count_list (queries (session svc)) u)
       \<and> cache (step b svc2) = Map.empty
       \<and> rows (session (step b svc2)) =
           (if b = Rollback then committed_rows (session svc2) else rows (session svc2))
       \<and> fst (fetch u (step b svc2)) = one_or_none (rows (session (step b svc2)) u)
       \<and> queries (session (snd (fetch u (step b svc2)))) = queries (session svc2) @ [u]"
proof -
  note F = fetch_returns [OF f1]
  note K = steps_keep_cached [OF F(1) nb]
  from fetch_cached [OF conjunct1 [OF K]] f2
  have a: "r2 = Inr r1" "svc2 = steps ops svc1" by simp_all
  have c: "count_list (queries (session svc2)) u \<le> Suc (count_list (queries (session svc)) u)"
    using a K F(2) by simp
  have s1: "svc1 = snd (fetch u svc)" using f1 by simp
  have l: "after_commit (session svc2) = after_commit sess @ [Flush_cache]"
    "after_rollback (session svc2) = after_rollback sess @ [Flush_cache]"
    by (simp_all add: a s1 reach steps_listeners fetch_listeners UserService_def)
  then have ne: "after_commit (session svc2) \<noteq> []" "after_rollback (session svc2) \<noteq> []"
    by simp_all
  note B = boundary_flushes [OF bd ne]
  have e: "cache (step b svc2) u = None" using B(1) by simp
  note U = fetch_uncached [OF e]
  have q: "queries (session (snd (fetch u (step b svc2)))) = queries (session svc2) @ [u]"
    using U(2) B(2) by simp
  from a c B(1) B(3) U(1) q show ?thesis by simp
qed

theorem fetch_cached_between_transaction_boundaries_witness:
  "fst (fetch ''acct:foo@example.com''
          (steps [Fetch ''acct:bar@example.com'', Write ''acct:foo@example.com'' []]
             (snd (fetch ''acct:foo@example.com'' (UserService example_session)))))
     = Inr (Some 7)
   \<and> queries (session (snd (fetch ''acct:foo@example.com''
          (steps [Fetch ''acct:bar@example.com'', Write ''acct:foo@example.com'' []]
             (snd (fetch ''acct:foo@example.com'' (UserService example_session)))))))
     = [''acct:foo@example.com'', ''acct:bar@example.com'']
   \<and> fst (fetch ''acct:foo@example.com'' (step Rollback (snd (fetch ''acct:foo@example.com''
          (steps [Fetch ''acct:bar@example.com'', Write ''acct:foo@example.com'' []]
             (snd (fetch ''acct:foo@example.com'' (UserService example_session))))))))
     = Inr (Some 7)
   \<and> fst (fetch ''acct:foo@example.com'' (step Commit (snd (fetch ''acct:foo@example.com''
          (steps [Fetch ''acct:bar@example.com'', Write ''acct:foo@example.com'' []]
             (snd (fetch ''acct:foo@example.com'' (UserService example_session))))))))
     = Inr None
   \<and> queries (session (snd (fetch ''acct:foo@example.com'' (step Rollback
          (snd (fetch ''acct:foo@example.com''
          (steps [Fetch ''acct:bar@example.com'', Write ''acct:foo@example.com'' []]
             (snd (fetch ''acct:foo@example.com'' (UserService example_session))))))))))
     = [''acct:foo@example.com'', ''acct:bar@example.com'', ''acct:foo@example.com'']"
proof -
  define svc :: "nat user_service" where "svc = UserService example_session"
  define svc1 where "svc1 = snd (fetch ''acct:foo@example.com'' svc)"
  define ops :: "nat session_op list"
    where "ops = [Fetch ''acct:bar@example.com'', Write ''acct:foo@example.com'' []]"
  define svc2 where "svc2 = snd (fetch ''acct:foo@example.com'' (steps ops svc1))"
  define r2 where "r2 = fst (fetch ''acct:foo@example.com'' (steps ops svc1))"
  have reach: "svc = steps [] (UserService example_session)"
    by (simp add: svc_def)
  have f1: "fetch ''acct:foo@example.com'' svc = (Inr (Some 7), svc1)"
    by (simp add: svc1_def svc_def fetch_def UserService_def example_session_def one_or_none_def Let_def)
  have nb: "list_all (\<lambda>op. \<not> is_boundary op) ops"
    by (simp add: ops_def)
  have f2: "fetch ''acct:foo@example.com'' (steps ops svc1) = (r2, svc2)"
    by (simp add: r2_def svc2_def)
  have bc: "is_boundary (Commit :: nat session_op)"
    and br: "is_boundary (Rollback :: nat session_op)" by simp_all
  have q: "queries (session (steps ops svc1)) = [''acct:foo@example.com'', ''acct:bar@example.com'']"
    by (simp add: ops_def svc1_def svc_def fetch_def UserService_def example_session_def
          one_or_none_def Let_def)
  have r: "rows (session svc2) ''acct:foo@example.com'' = []"
    by (simp add: svc2_def ops_def svc1_def svc_def fetch_def UserService_def example_session_def
          one_or_none_def Let_def)
  have cr: "committed_rows (session svc2) ''acct:foo@example.com'' = [7]"
    by (simp add: svc2_def ops_def svc1_def svc_def fetch_def UserService_def example_session_def
          one_or_none_def Let_def)
  note C = fetch_cached_between_transaction_boundaries [OF reach f1 nb f2 bc]
  note R = fetch_cached_between_transaction_boundaries [OF reach f1 nb f2 br]
  have a: "r2 = Inr (Some 7)"
    and b: "queries (session svc2) = [''acct:foo@example.com'', ''acct:bar@example.com'']"
    using C q by simp_all
  have c: "fst (fetch ''acct:foo@example.com'' (step Rollback svc2)) = Inr (Some 7)"
    using R cr by (simp add: one_or_none_def)
  have d: "fst (fetch ''acct:foo@example.com'' (step Commit svc2)) = Inr None"
    using C r by (simp add: one_or_none_def)
  have e: "queries (session (snd (fetch ''acct:foo@example.com'' (step Rollback svc2))))
             = [''acct:foo@example.com'', ''acct:bar@example.com'', ''acct:foo@example.com'']"
    using R b by simp
  from a b c d e show ?thesis
    unfolding r2_def svc2_def ops_def svc1_def svc_def by simp
qed

subsection \<open>Properties of the document store\<close>

lemma flush_or_retryable_result:
  "flush_or_retryable st =
     (if conflicts st (flushes st) then Inl RetryableError else Inr (),
      st\<lparr>flushes := Suc (flushes st)\<rparr>)"
  by (simp add: flush_or_retryable_def flush_def)


lemma merge_duplicates_flush:
  "flushes (merge_duplicates master duplicates st) = flushes st
   \<and> conflicts (merge_duplicates master duplicates st) = conflicts st"
  by (induction duplicates arbitrary: st) (simp_all add: destroy_def reassign_def)

lemma stamp_updated_tables:
  "document_uris (stamp_updated master updated st) = document_uris st"
  "document_metas (stamp_updated master updated st) = document_metas st"
  "map doc_id (documents (stamp_updated master updated st)) = map doc_id (documents st)"
  "flushes (stamp_updated master updated st) = flushes st"
  "conflicts (stamp_updated master updated st) = conflicts st"
  by (auto simp: stamp_updated_def split: option.splits)




lemma length_update_first: "length (update_first p f xs) = length xs"
  by (induction xs) simp_all

lemma map_update_first: "(\<And>x. g (f x) = g x) \<Longrightarrow> map g (update_first p f xs) = map g xs"
  by (induction xs) simp_all

lemma filter_update_first:
  "(\<And>x. p (f x) = p x) \<Longrightarrow> length (filter p (update_first p f xs)) = length (filter p xs)"
  by (induction xs) simp_all

lemma find_update_first:
  "(\<And>x. p (f x) = p x) \<Longrightarrow> find p (update_first p f xs) = map_option f (find p xs)"
  by (induction xs) simp_all

lemma find_None_filter: "find p xs = None \<longleftrightarrow> filter p xs = []"
  by (induction xs) simp_all

lemma uri_key_matches_updated [simp]:
  "uri_key_matches c u t ct (row\<lparr>uri_updated := x\<rparr>) = uri_key_matches c u t ct row"
  by (simp add: uri_key_matches_def)

text \<open>What one upsert of a URI claim does to the table of URI rows.\<close>

lemma create_or_update_document_uri_rows:
  "document_uris (snd (create_or_update_document_uri claimant uri type content_type document
                         created updated st)) =
     (case find (uri_key_matches claimant uri (coerce_none type) (coerce_none content_type))
             (document_uris st) of
        Some existing \<Rightarrow>
          update_first (uri_key_matches claimant uri (coerce_none type) (coerce_none content_type))
            (\<lambda>row. row\<lparr>uri_updated := updated\<rparr>) (document_uris st)
      | None \<Rightarrow>
          document_uris st @
            [\<lparr>uri_claimant = claimant, uri_uri = uri, uri_type = coerce_none type,
              uri_content_type = coerce_none content_type, uri_document = document,
              uri_created = created, uri_updated = updated\<rparr>])"
  by (simp add: create_or_update_document_uri_def Let_def flush_or_retryable_result
        denormalize_web_uri_def split: option.splits)

text \<open>
  C8. \<open>create_or_update_document_uri\<close> is called twice with the same claimant, uri,
  type and content type (whatever the documents and timestamps). The second call adds no
  row: the table has as many rows after it as before it, and the rows with the key are as
  many as before the first call, or one when there was none. The second call finds the
  row that the first one left, sets its \<open>updated\<close> to the given value, and leaves
  \<open>created\<close> (and the owner) of every row as it was.
\<close>

theorem create_or_update_document_uri_twice:
  fixes st :: store and claimant uri :: string and type content_type :: "string option"
    and document1 document2 :: document_id and created1 updated1 created2 updated2 :: timestamp
  defines "p \<equiv> uri_key_matches claimant uri (coerce_none type) (coerce_none content_type)"
  defines "st1 \<equiv> snd (create_or_update_document_uri claimant uri type content_type document1
                        created1 updated1 st)"
  defines "st2 \<equiv> snd (create_or_update_document_uri claimant uri type content_type document2
                        created2 updated2 st1)"
  shows "length (document_uris st2) = length (document_uris st1)
       \<and> length (filter p (document_uris st2)) =
           (if filter p (document_uris st) = [] then 1 else length (filter p (document_uris st)))
       \<and> (\<exists>row. find p (document_uris st1) = Some row
                \<and> find p (document_uris st2) = Some (row\<lparr>uri_updated := updated2\<rparr>))
       \<and> document_uris st2 =
           update_first p (\<lambda>row. row\<lparr>uri_updated := updated2\<rparr>) (document_uris st1)
       \<and> map uri_created (document_uris st2) = map uri_created (document_uris st1)
       \<and> map uri_document (document_uris st2) = map uri_document (document_uris st1)"
proof -
  have r1: "document_uris st1 =
     (case find p (document_uris st) of
        Some existing \<Rightarrow> update_first p (\<lambda>row. row\<lparr>uri_updated := updated1\<rparr>) (document_uris st)
      | None \<Rightarrow>
          document_uris st @
            [\<lparr>uri_claimant = claimant, uri_uri = uri, uri_type = coerce_none type,
              uri_content_type = coerce_none content_type, uri_document = document1,
              uri_created = created1, uri_updated = updated1\<rparr>])"
    unfolding st1_def p_def by (rule create_or_update_document_uri_rows)
  have pn: "p \<lparr>uri_claimant = claimant, uri_uri = uri, uri_type = coerce_none type,
              uri_content_type = coerce_none content_type, uri_document = document1,
              uri_created = created1, uri_updated = updated1\<rparr>"
    by (simp add: p_def uri_key_matches_def)
  have pu: "\<And>x row. p (row\<lparr>uri_updated := x\<rparr>) = p row"
    by (simp add: p_def)
  obtain row where f1: "find p (document_uris st1) = Some row"
  proof (cases "find p (document_uris st)")
    case None
    then have "filter p (document_uris st) = []" by (simp add: find_None_filter)
    with None pn have "filter p (document_uris st1) \<noteq> []" by (simp add: r1)
    then have "find p (document_uris st1) \<noteq> None" by (simp add: find_None_filter)
    with that show ?thesis by auto
  next
    case (Some existing)
    then have "find p (document_uris st1) = Some (existing\<lparr>uri_updated := updated1\<rparr>)"
      by (simp add: r1 find_update_first pu)
    with that show ?thesis by auto
  qed
  have c1: "length (filter p (document_uris st1)) =
           (if filter p (document_uris st) = [] then 1 else length (filter p (document_uris st)))"
  proof (cases "find p (document_uris st)")
    case None
    then have "filter p (document_uris st) = []" by (simp add: find_None_filter)
    with None pn show ?thesis by (simp add: r1)
  next
    case (Some existing)
    then have "filter p (document_uris st) \<noteq> []" using find_None_filter [of p "document_uris st"] by simp
    with Some show ?thesis by (simp add: r1 filter_update_first pu)
  qed
  have r2: "document_uris st2 =
      update_first p (\<lambda>row. row\<lparr>uri_updated := updated2\<rparr>) (document_uris st1)"
    unfolding st2_def
    using f1 by (simp add: create_or_update_document_uri_rows p_def [symmetric])
  have f2: "find p (document_uris st2) = Some (row\<lparr>uri_updated := updated2\<rparr>)"
    by (simp add: r2 find_update_first pu f1)
  have a: "length (document_uris st2) = length (document_uris st1)"
    by (simp add: r2 length_update_first)
  have b: "length (filter p (document_uris st2)) = length (filter p (document_uris st1))"
    by (simp add: r2 filter_update_first pu)
  have c: "map uri_created (document_uris st2) = map uri_created (document_uris st1)"
    by (simp add: r2 map_update_first)
  have d: "map uri_document (document_uris st2) = map uri_document (document_uris st1)"
    by (simp add: r2 map_update_first)
  from a b c1 f1 f2 r2 c d show ?thesis by simp
qed

theorem create_or_update_document_uri_twice_witness:
  "map (\<lambda>row. (uri_created row, uri_updated row))
     (document_uris
        (snd (create_or_update_document_uri ''http://example.com/example_claimant.html''
                ''http://example.com/example_uri.html'' (Some ''self-claim'') None 1 20 20
           (snd (create_or_update_document_uri ''http://example.com/example_claimant.html''
                   ''http://example.com/example_uri.html'' (Some ''self-claim'') None 1 10 10
                   empty_store))))) = [(10, 20)]"
proof -
  define st1 where "st1 = snd (create_or_update_document_uri ''http://example.com/example_claimant.html''
                   ''http://example.com/example_uri.html'' (Some ''self-claim'') None 1 10 10
                   empty_store)"
  have r1: "document_uris st1 =
     [\<lparr>uri_claimant = ''http://example.com/example_claimant.html'',
       uri_uri = ''http://example.com/example_uri.html'',
       uri_type = ''self-claim'', uri_content_type = '''', uri_document = 1,
       uri_created = 10, uri_updated = 10\<rparr>]"
    by (simp add: st1_def create_or_update_document_uri_rows empty_store_def coerce_none_def)
  have "document_uris
        (snd (create_or_update_document_uri ''http://example.com/example_claimant.html''
                ''http://example.com/example_uri.html'' (Some ''self-claim'') None 1 20 20 st1)) =
      update_first (uri_key_matches ''http://example.com/example_claimant.html''
                ''http://example.com/example_uri.html'' (coerce_none (Some ''self-claim''))
                (coerce_none None))
        (\<lambda>row. row\<lparr>uri_updated := 20\<rparr>) (document_uris st1)"
    using create_or_update_document_uri_twice
            [of "''http://example.com/example_claimant.html''"
                "''http://example.com/example_uri.html''" "Some ''self-claim''" None 1 20 20 1 10 10
                empty_store]
    by (simp add: st1_def)
  then have e: "map (\<lambda>row. (uri_created row, uri_updated row))
     (document_uris
        (snd (create_or_update_document_uri ''http://example.com/example_claimant.html''
                ''http://example.com/example_uri.html'' (Some ''self-claim'') None 1 20 20 st1)))
      = [(10, 20)]"
    by (simp add: r1 uri_key_matches_def coerce_none_def)
  show ?thesis
    using e unfolding st1_def .
qed

lemma pre_flush_unchanged:
  "flushes (denormalize_web_uri d u st) = flushes st"
  "conflicts (denormalize_web_uri d u st) = conflicts st"
  "flushes (denormalize_title d v st) = flushes st"
  "conflicts (denormalize_title d v st) = conflicts st"
  by (simp_all add: denormalize_web_uri_def denormalize_title_def)

text \<open>
  C9. When the flush of the session meets a uniqueness or integrity violation, each of the
  four write paths (\<open>find_or_create_by_uris\<close>, \<open>create_or_update_document_uri\<close>,
  \<open>create_or_update_document_meta\<close>, \<open>merge_documents\<close>) returns the retryable error to
  its caller, not the storage layer's integrity error, and has attempted exactly one flush:
  it does not retry.
\<close>

theorem flush_conflict_is_retryable:
  assumes c: "conflicts st (flushes st)"
      and dl: "document_list \<noteq> []"
      and v: "val \<noteq> []"
  shows "fst (find_or_create_by_uris target_uri other_uris created updated st) = Inl RetryableError
       \<and> flushes (snd (find_or_create_by_uris target_uri other_uris created updated st))
           = Suc (flushes st)
       \<and> fst (create_or_update_document_uri claimant uri type content_type document created updated st)
           = Inl RetryableError
       \<and> flushes (snd (create_or_update_document_uri claimant uri type content_type document
                          created updated st)) = Suc (flushes st)
       \<and> fst (create_or_update_document_meta claimant mtype val document created updated st)
           = Inl RetryableError
       \<and> flushes (snd (create_or_update_document_meta claimant mtype val document created updated st))
           = Suc (flushes st)
       \<and> fst (merge_documents document_list stamp st) = Inl RetryableError
       \<and> flushes (snd (merge_documents document_list stamp st)) = Suc (flushes st)"
proof -
  have a: "fst (find_or_create_by_uris target_uri other_uris created updated st) = Inl RetryableError
         \<and> flushes (snd (find_or_create_by_uris target_uri other_uris created updated st))
           = Suc (flushes st)"
    using c by (simp add: find_or_create_by_uris_def Let_def flush_or_retryable_result)
  have b: "fst (create_or_update_document_uri claimant uri type content_type document created updated st)
           = Inl RetryableError
       \<and> flushes (snd (create_or_update_document_uri claimant uri type content_type document
                          created updated st)) = Suc (flushes st)"
    using c
    by (simp add: create_or_update_document_uri_def Let_def flush_or_retryable_result
          pre_flush_unchanged split: option.splits)
  obtain v0 vs where vv: "val = v0 # vs" using v by (cases val) auto
  have m: "fst (create_or_update_document_meta claimant mtype val document created updated st)
           = Inl RetryableError
       \<and> flushes (snd (create_or_update_document_meta claimant mtype val document created updated st))
           = Suc (flushes st)"
    using c
    by (simp add: create_or_update_document_meta_def Let_def flush_or_retryable_result
          pre_flush_unchanged vv split: option.splits)
  obtain master duplicates where d: "document_list = master # duplicates"
    using dl by (cases document_list) auto
  have g: "fst (merge_documents document_list stamp st) = Inl RetryableError
       \<and> flushes (snd (merge_documents document_list stamp st)) = Suc (flushes st)"
    using c
    by (simp add: merge_documents_def d flush_or_retryable_result stamp_updated_tables
          merge_duplicates_flush)
  from a b m g show ?thesis by simp
qed

theorem flush_conflict_is_retryable_witness:
  "fst (find_or_create_by_uris ''https://en.wikipedia.org/wiki/Pluto''
          [''https://m.en.wikipedia.org/wiki/Pluto''] 10 10 contended_store) = Inl RetryableError
   \<and> fst (create_or_update_document_uri ''http://example.com'' ''http://example.org''
            (Some ''rel-canonical'') (Some ''text/html'') 1 10 10 contended_store)
       = Inl RetryableError
   \<and> fst (create_or_update_document_meta ''http://example.com'' ''title'' [''My Title'']
            1 10 10 contended_store) = Inl RetryableError
   \<and> fst (merge_documents [1, 2] None contended_store) = Inl RetryableError
   \<and> flushes (snd (merge_documents [1, 2] None contended_store)) = 1"
proof -
  have c: "conflicts contended_store (flushes contended_store)"
    by (simp add: contended_store_def)
  have f: "flushes contended_store = 0"
    by (simp add: contended_store_def merge_data_def)
  have dl: "[1::nat, 2] \<noteq> []" by simp
  have v: "[''My Title''] \<noteq> []" by simp
  show ?thesis
    using flush_conflict_is_retryable [OF c dl v,
            of "''https://en.wikipedia.org/wiki/Pluto''" "[''https://m.en.wikipedia.org/wiki/Pluto'']"
               10 10 "''http://example.com''" "''http://example.org''" "Some ''rel-canonical''"
               "Some ''text/html''" 1 "''title''" None]
    by (simp add: f)
qed

end
